theory Spec2Isabelle
  imports Main
begin

section \<open>Signals and slots of \<open>sigslot11.h\<close>\<close>

text \<open>
  Objects are identified by their addresses, which are natural numbers here: one address
  space for the \<open>Signal\<close> objects (emitters, seen by receivers as \<open>SignalInterface *\<close>) and one
  for the \<open>Connectable\<close> objects (receivers). A pointer to member function is a natural
  number as well.
\<close>

subsection \<open>Connection records\<close>

text \<open>
  \<open>Connection<Dest, Args...>\<close>: the two private members. Records are immutable once
  constructed, so the list of pointers to heap records held by a signal is modelled as a
  list of record values.
\<close>

record connection =
  m_pobject :: nat
  m_pmemfun :: nat

definition GetDest :: "connection \<Rightarrow> nat" where
  "GetDest c = m_pobject c"

definition Clone :: "connection \<Rightarrow> connection" where
  "Clone c = c"

definition Duplicate :: "connection \<Rightarrow> nat \<Rightarrow> connection" where
  "Duplicate c pnewdest = \<lparr>m_pobject = pnewdest, m_pmemfun = m_pmemfun c\<rparr>"

text \<open>
  \<open>Connection::Emit\<close> calls \<open>(m_pobject->*m_pmemfun)(args...)\<close>. The handler is user code; the
  model records the call that is made: receiver, member function and arguments.
\<close>

type_synonym 'a invocation = "nat \<times> nat \<times> 'a"

definition Connection_Emit :: "connection \<Rightarrow> 'a \<Rightarrow> 'a invocation" where
  "Connection_Emit c args = (m_pobject c, m_pmemfun c, args)"

subsection \<open>The containers\<close>

text \<open>
  \<open>std::set<SignalInterface *>\<close> keeps its keys unique and iterates over them in ascending
  order: it is modelled as a strictly ascending list. \<open>insert\<close> leaves the set alone when
  the key is there, \<open>erase\<close> by key removes what is equivalent to the key.
\<close>

definition std_set :: "nat list \<Rightarrow> bool" where
  "std_set xs = sorted_wrt (<) xs"

fun set_insert :: "nat \<Rightarrow> nat list \<Rightarrow> nat list" where
  "set_insert x [] = [x]"
| "set_insert x (y # ys) =
     (if x < y then x # y # ys
      else if x = y then y # ys
      else y # set_insert x ys)"

fun set_erase :: "nat \<Rightarrow> nat list \<Rightarrow> nat list" where
  "set_erase x [] = []"
| "set_erase x (y # ys) = (if y = x then set_erase x ys else y # set_erase x ys)"

subsection \<open>The state\<close>

text \<open>
  The private member of every \<open>Signal\<close> (\<open>m_connected_slots\<close>, a \<open>std::list\<close>) and of every
  \<open>Connectable\<close> (\<open>m_senders\<close>), by address. An object that has not been constructed, or has
  been destroyed, has empty members: both destructors clear them.
\<close>

record heap =
  m_connected_slots :: "nat \<Rightarrow> connection list"
  m_senders :: "nat \<Rightarrow> nat list"

definition empty_heap :: heap where
  "empty_heap = \<lparr>m_connected_slots = (\<lambda>_. []), m_senders = (\<lambda>_. [])\<rparr>"

definition set_slots :: "nat \<Rightarrow> connection list \<Rightarrow> heap \<Rightarrow> heap" where
  "set_slots this cs s = s\<lparr>m_connected_slots := (m_connected_slots s)(this := cs)\<rparr>"

definition set_senders :: "nat \<Rightarrow> nat list \<Rightarrow> heap \<Rightarrow> heap" where
  "set_senders this xs s = s\<lparr>m_senders := (m_senders s)(this := xs)\<rparr>"

subsection \<open>\<open>Connectable\<close>\<close>

definition Connectable_SignalConnect :: "nat \<Rightarrow> nat \<Rightarrow> heap \<Rightarrow> heap" where
  "Connectable_SignalConnect this sender s =
     set_senders this (set_insert sender (m_senders s this)) s"

definition Connectable_SignalDisconnect :: "nat \<Rightarrow> nat \<Rightarrow> heap \<Rightarrow> heap" where
  "Connectable_SignalDisconnect this sender s =
     set_senders this (set_erase sender (m_senders s this)) s"

subsection \<open>\<open>Signal\<close>\<close>

text \<open>\<open>Signal::SlotDisconnect\<close>: the \<open>while\<close> loop erases every record whose target is \<open>pslot\<close>.\<close>

fun SlotDisconnect_loop :: "nat \<Rightarrow> connection list \<Rightarrow> connection list" where
  "SlotDisconnect_loop pslot [] = []"
| "SlotDisconnect_loop pslot (c # cs) =
     (if GetDest c = pslot then SlotDisconnect_loop pslot cs
      else c # SlotDisconnect_loop pslot cs)"

definition Signal_SlotDisconnect :: "nat \<Rightarrow> nat \<Rightarrow> heap \<Rightarrow> heap" where
  "Signal_SlotDisconnect this pslot s =
     set_slots this (SlotDisconnect_loop pslot (m_connected_slots s this)) s"

text \<open>
  \<open>Signal::Disconnect\<close>: the loop skips the records of other targets, erases the first one
  whose target is \<open>pslot\<close> and leaves with \<open>break\<close>. The flag tells whether the body after
  \<open>continue\<close> ran, that is whether \<open>pslot->SignalDisconnect(this)\<close> is called.
\<close>

fun Disconnect_loop :: "nat \<Rightarrow> connection list \<Rightarrow> connection list \<times> bool" where
  "Disconnect_loop pslot [] = ([], False)"
| "Disconnect_loop pslot (c # cs) =
     (if GetDest c \<noteq> pslot
      then (case Disconnect_loop pslot cs of (cs', found) \<Rightarrow> (c # cs', found))
      else (cs, True))"

definition Signal_Disconnect :: "nat \<Rightarrow> nat \<Rightarrow> heap \<Rightarrow> heap" where
  "Signal_Disconnect this pslot s =
     (case Disconnect_loop pslot (m_connected_slots s this) of
        (cs, found) \<Rightarrow>
          if found then Connectable_SignalDisconnect pslot this (set_slots this cs s)
          else set_slots this cs s)"

text \<open>\<open>Signal::Connect\<close>: \<open>push_back\<close> of the new record, then \<open>pclass->SignalConnect(this)\<close>.\<close>

definition Signal_Connect :: "nat \<Rightarrow> nat \<Rightarrow> nat \<Rightarrow> heap \<Rightarrow> heap" where
  "Signal_Connect this pclass pmemfun s =
     Connectable_SignalConnect pclass this
       (set_slots this
          (m_connected_slots s this @ [\<lparr>m_pobject = pclass, m_pmemfun = pmemfun\<rparr>]) s)"

text \<open>
  \<open>Signal::Emit\<close>: one call per record, in list order. The result is the sequence of calls
  made and the state, which \<open>Emit\<close> itself does not write. What a handler does is user code
  and is not part of the model: a handler is taken not to touch the signal it is called
  from.
\<close>

fun Emit_loop :: "'a \<Rightarrow> connection list \<Rightarrow> 'a invocation list" where
  "Emit_loop args [] = []"
| "Emit_loop args (slot # rest) = Connection_Emit slot args # Emit_loop args rest"

definition Signal_Emit :: "nat \<Rightarrow> 'a \<Rightarrow> heap \<Rightarrow> 'a invocation list \<times> heap" where
  "Signal_Emit this args s = (Emit_loop args (m_connected_slots s this), s)"

text \<open>
  \<open>Signal::DisconnectAll\<close>: every record's target drops this signal, the record is deleted,
  and the list is cleared. \<open>~Signal\<close> is this call.
\<close>

fun Signal_DisconnectAll_loop :: "nat \<Rightarrow> connection list \<Rightarrow> heap \<Rightarrow> heap" where
  "Signal_DisconnectAll_loop this [] s = s"
| "Signal_DisconnectAll_loop this (slot # rest) s =
     Signal_DisconnectAll_loop this rest (Connectable_SignalDisconnect (GetDest slot) this s)"

definition Signal_DisconnectAll :: "nat \<Rightarrow> heap \<Rightarrow> heap" where
  "Signal_DisconnectAll this s =
     set_slots this [] (Signal_DisconnectAll_loop this (m_connected_slots s this) s)"

definition Signal_destroy :: "nat \<Rightarrow> heap \<Rightarrow> heap" where
  "Signal_destroy this s = Signal_DisconnectAll this s"

text \<open>
  \<open>Signal::SlotDuplicate\<close>: a range-based \<open>for\<close> over the list the body appends to. The end
  iterator of a \<open>std::list\<close> stays past the last element when \<open>push_back\<close> runs, so the loop
  also visits the records it has appended. \<open>visited\<close> are the records before the iterator,
  \<open>rest\<close> the ones from the iterator on. The loop need not end, so the result is an option:
  \<open>None\<close> is a loop that runs forever.
\<close>

partial_function (option) SlotDuplicate_loop ::
    "nat \<Rightarrow> nat \<Rightarrow> connection list \<Rightarrow> connection list \<Rightarrow> connection list option" where
  "SlotDuplicate_loop oldtarget newtarget visited rest =
     (if rest = [] then Some visited
      else if GetDest (hd rest) \<noteq> oldtarget
      then SlotDuplicate_loop oldtarget newtarget (visited @ [hd rest]) (tl rest)
      else SlotDuplicate_loop oldtarget newtarget (visited @ [hd rest])
             (tl rest @ [Duplicate (hd rest) newtarget]))"

definition Signal_SlotDuplicate :: "nat \<Rightarrow> nat \<Rightarrow> nat \<Rightarrow> heap \<Rightarrow> heap option" where
  "Signal_SlotDuplicate this oldtarget newtarget s =
     (case SlotDuplicate_loop oldtarget newtarget [] (m_connected_slots s this) of
        None \<Rightarrow> None
      | Some cs \<Rightarrow> Some (set_slots this cs s))"

text \<open>
  The copy constructor of \<open>Signal\<close>: \<open>this\<close> is the address of the object under
  construction, whose list starts empty; for every record of the source, its target
  registers the new signal and a clone is appended to the new list.
\<close>

fun Signal_copy_loop :: "nat \<Rightarrow> connection list \<Rightarrow> heap \<Rightarrow> heap" where
  "Signal_copy_loop this [] s = s"
| "Signal_copy_loop this (slot # rest) s =
     Signal_copy_loop this rest
       (let s1 = Connectable_SignalConnect (GetDest slot) this s
        in set_slots this (m_connected_slots s1 this @ [Clone slot]) s1)"

definition Signal_copy :: "nat \<Rightarrow> nat \<Rightarrow> heap \<Rightarrow> heap" where
  "Signal_copy this src s =
     Signal_copy_loop this (m_connected_slots s src) (set_slots this [] s)"

subsection \<open>\<open>Connectable\<close>, the calls into the signals\<close>

text \<open>
  \<open>Connectable::DisconnectAll\<close>: every sender drops its records for this receiver, then the
  set is cleared. \<open>~Connectable\<close> is this call.
\<close>

fun Connectable_DisconnectAll_loop :: "nat \<Rightarrow> nat list \<Rightarrow> heap \<Rightarrow> heap" where
  "Connectable_DisconnectAll_loop this [] s = s"
| "Connectable_DisconnectAll_loop this (sender # rest) s =
     Connectable_DisconnectAll_loop this rest (Signal_SlotDisconnect sender this s)"

definition Connectable_DisconnectAll :: "nat \<Rightarrow> heap \<Rightarrow> heap" where
  "Connectable_DisconnectAll this s =
     set_senders this [] (Connectable_DisconnectAll_loop this (m_senders s this) s)"

definition Connectable_destroy :: "nat \<Rightarrow> heap \<Rightarrow> heap" where
  "Connectable_destroy this s = Connectable_DisconnectAll this s"

text \<open>
  The copy constructor of \<open>Connectable\<close>: \<open>this\<close> is the address of the object under
  construction, whose set starts empty; every sender of the source duplicates its records
  for the source and is registered in the new set.
\<close>

fun Connectable_copy_loop :: "nat \<Rightarrow> nat \<Rightarrow> nat list \<Rightarrow> heap \<Rightarrow> heap option" where
  "Connectable_copy_loop this src [] s = Some s"
| "Connectable_copy_loop this src (sender # rest) s =
     (case Signal_SlotDuplicate sender src this s of
        None \<Rightarrow> None
      | Some s1 \<Rightarrow> Connectable_copy_loop this src rest (Connectable_SignalConnect this sender s1))"

definition Connectable_copy :: "nat \<Rightarrow> nat \<Rightarrow> heap \<Rightarrow> heap option" where
  "Connectable_copy this src s =
     Connectable_copy_loop this src (m_senders s src) (set_senders this [] s)"

subsection \<open>Sequences of calls\<close>

text \<open>
  The public operations of the two classes, and the states a program reaches by calling
  them one after the other. \<open>Emit\<close> is called with no arguments here. A call that does not
  return ends the run with \<open>None\<close>.
\<close>

datatype operation =
    Connect nat nat nat
  | Emit nat
  | Disconnect nat nat
  | SlotDisconnect nat nat
  | SlotDuplicate nat nat nat
  | SignalDisconnectAll nat
  | SignalCopy nat nat
  | SignalDestroy nat
  | SignalConnect nat nat
  | SignalDisconnect nat nat
  | ConnectableDisconnectAll nat
  | ConnectableCopy nat nat
  | ConnectableDestroy nat

fun perform :: "operation \<Rightarrow> heap \<Rightarrow> heap option" where
  "perform (Connect this pclass pmemfun) s = Some (Signal_Connect this pclass pmemfun s)"
| "perform (Emit this) s = Some (snd (Signal_Emit this () s))"
| "perform (Disconnect this pslot) s = Some (Signal_Disconnect this pslot s)"
| "perform (SlotDisconnect this pslot) s = Some (Signal_SlotDisconnect this pslot s)"
| "perform (SlotDuplicate this oldtarget newtarget) s =
     Signal_SlotDuplicate this oldtarget newtarget s"
| "perform (SignalDisconnectAll this) s = Some (Signal_DisconnectAll this s)"
| "perform (SignalCopy this src) s = Some (Signal_copy this src s)"
| "perform (SignalDestroy this) s = Some (Signal_destroy this s)"
| "perform (SignalConnect this sender) s = Some (Connectable_SignalConnect this sender s)"
| "perform (SignalDisconnect this sender) s = Some (Connectable_SignalDisconnect this sender s)"
| "perform (ConnectableDisconnectAll this) s = Some (Connectable_DisconnectAll this s)"
| "perform (ConnectableCopy this src) s = Connectable_copy this src s"
| "perform (ConnectableDestroy this) s = Some (Connectable_destroy this s)"

fun run :: "operation list \<Rightarrow> heap \<Rightarrow> heap option" where
  "run [] s = Some s"
| "run (op # ops) s = (case perform op s of None \<Rightarrow> None | Some s' \<Rightarrow> run ops s')"

text \<open>\<open>Connect\<close> called on one signal for a list of receivers and handlers, in order.\<close>

fun Connect_all :: "nat \<Rightarrow> (nat \<times> nat) list \<Rightarrow> heap \<Rightarrow> heap" where
  "Connect_all this [] s = s"
| "Connect_all this ((pclass, pmemfun) # rest) s =
     Connect_all this rest (Signal_Connect this pclass pmemfun s)"

text \<open>
  A signal is connected to a receiver when both ends say so: the signal holds a record
  for the receiver, and the receiver has the signal among its senders. This is the state
  \<open>Connect\<close> leaves.
\<close>

definition connected :: "heap \<Rightarrow> nat \<Rightarrow> nat \<Rightarrow> bool" where
  "connected s E R \<longleftrightarrow>
     (\<exists>c \<in> set (m_connected_slots s E). GetDest c = R) \<and> E \<in> set (m_senders s R)"

text \<open>Every \<open>m_senders\<close> of the state is a \<open>std::set\<close>.\<close>

definition senders_wf :: "heap \<Rightarrow> bool" where
  "senders_wf s \<longleftrightarrow> (\<forall>r. std_set (m_senders s r))"

subsection \<open>Example states\<close>

text \<open>
  Signal 10 connected to receiver 2 with handler 7; the same with a second record for handler
  8; and the latter with a record for receiver 3 between the two.
\<close>

definition heap_click :: heap where
  "heap_click = Signal_Connect 10 2 7 empty_heap"

definition heap_twice :: heap where
  "heap_twice = Signal_Connect 10 2 8 (Signal_Connect 10 2 7 empty_heap)"

definition heap_mixed :: heap where
  "heap_mixed = Connect_all 10 [(2, 7), (3, 9), (2, 8)] empty_heap"

text \<open>
  Signal 10 connected twice to receiver 2 and disconnected once: the state after
  \<open>Connect(2, 7)\<close>, \<open>Connect(2, 8)\<close>, \<open>Disconnect(2)\<close>.
\<close>

definition heap_disconnected_once :: heap where
  "heap_disconnected_once = Signal_Disconnect 10 2 heap_twice"

section \<open>Basic facts\<close>

lemma slots_set_slots [simp]:
  "m_connected_slots (set_slots this cs s) e = (if e = this then cs else m_connected_slots s e)"
  by (simp add: set_slots_def)

lemma senders_set_slots [simp]: "m_senders (set_slots this cs s) = m_senders s"
  by (simp add: set_slots_def)

lemma senders_set_senders [simp]:
  "m_senders (set_senders this xs s) r = (if r = this then xs else m_senders s r)"
  by (simp add: set_senders_def)

lemma slots_set_senders [simp]: "m_connected_slots (set_senders this xs s) = m_connected_slots s"
  by (simp add: set_senders_def)

lemma Emit_loop_map:
  "Emit_loop args cs = map (\<lambda>c. (m_pobject c, m_pmemfun c, args)) cs"
  by (induction cs) (simp_all add: Connection_Emit_def)

lemma heap_click_eq:
  "heap_click = \<lparr>m_connected_slots = (\<lambda>_. [])(10 := [\<lparr>m_pobject = 2, m_pmemfun = 7\<rparr>]),
                 m_senders = (\<lambda>_. [])(2 := [10])\<rparr>"
  by (simp add: heap_click_def Signal_Connect_def Connectable_SignalConnect_def empty_heap_def
      set_slots_def set_senders_def)

lemma heap_twice_eq:
  "heap_twice =
     \<lparr>m_connected_slots =
        (\<lambda>_. [])(10 := [\<lparr>m_pobject = 2, m_pmemfun = 7\<rparr>, \<lparr>m_pobject = 2, m_pmemfun = 8\<rparr>]),
      m_senders = (\<lambda>_. [])(2 := [10])\<rparr>"
  by (simp add: heap_twice_def Signal_Connect_def Connectable_SignalConnect_def empty_heap_def
      set_slots_def set_senders_def)

lemma heap_mixed_eq:
  "heap_mixed =
     \<lparr>m_connected_slots =
        (\<lambda>_. [])(10 := [\<lparr>m_pobject = 2, m_pmemfun = 7\<rparr>, \<lparr>m_pobject = 3, m_pmemfun = 9\<rparr>,
                        \<lparr>m_pobject = 2, m_pmemfun = 8\<rparr>]),
      m_senders = (\<lambda>_. [])(3 := [10], 2 := [10])\<rparr>"
  by (simp add: heap_mixed_def Signal_Connect_def Connectable_SignalConnect_def empty_heap_def
      set_slots_def set_senders_def)

lemma slots_Connect:
  "m_connected_slots (Signal_Connect this pclass pmemfun s) e =
     (if e = this then m_connected_slots s this @ [\<lparr>m_pobject = pclass, m_pmemfun = pmemfun\<rparr>]
      else m_connected_slots s e)"
  by (simp add: Signal_Connect_def Connectable_SignalConnect_def)

lemma senders_Connect:
  "m_senders (Signal_Connect this pclass pmemfun s) r =
     (if r = pclass then set_insert this (m_senders s pclass) else m_senders s r)"
  by (simp add: Signal_Connect_def Connectable_SignalConnect_def)

lemma slots_Connect_all:
  "m_connected_slots (Connect_all this ps s) this =
     m_connected_slots s this @ map (\<lambda>(r, h). \<lparr>m_pobject = r, m_pmemfun = h\<rparr>) ps"
  by (induction this ps s rule: Connect_all.induct) (simp_all add: slots_Connect)

lemma SlotDisconnect_loop_filter:
  "SlotDisconnect_loop pslot cs = filter (\<lambda>c. GetDest c \<noteq> pslot) cs"
  by (induction cs) simp_all

section \<open>No-op behaviour\<close>

lemma Disconnect_loop_absent:
  "\<forall>c \<in> set cs. GetDest c \<noteq> pslot \<Longrightarrow> Disconnect_loop pslot cs = (cs, False)"
  by (induction cs) simp_all

text \<open>
  C9. When the signal holds no record whose target is \<open>R\<close>, \<open>Disconnect(R)\<close> returns the state
  it was given: the list of the signal and the senders of \<open>R\<close> are what they were. \<open>Emit\<close> on
  a signal with an empty list makes no call and returns the state it was given.
\<close>

theorem noop_Disconnect_and_Emit:
  "((\<forall>c \<in> set (m_connected_slots s E). GetDest c \<noteq> R) \<longrightarrow> Signal_Disconnect E R s = s) \<and>
   (m_connected_slots s E = [] \<longrightarrow> Signal_Emit E args s = ([], s))"
  by (simp add: Signal_Disconnect_def Disconnect_loop_absent Signal_Emit_def set_slots_def)

theorem noop_Disconnect_and_Emit_witness:
  "\<not> (\<exists>c \<in> set (m_connected_slots heap_click 10). GetDest c = 3) \<and>
   Signal_Disconnect 10 3 heap_click = heap_click \<and>
   m_connected_slots heap_click 5 = [] \<and>
   Signal_Emit 5 () heap_click = ([], heap_click)"
  using noop_Disconnect_and_Emit [of heap_click 10 3 "()"]
    noop_Disconnect_and_Emit [of heap_click 5 3 "()"]
  by (simp add: heap_click_eq GetDest_def)

section \<open>Dispatch\<close>

text \<open>
  C3. \<open>Emit(args)\<close> makes one call per record of the list, in list order, each to the
  record's receiver and handler with \<open>args\<close>, and writes nothing. \<open>Connect\<close> puts the new
  record after the ones the list holds, which stay in their order. So after \<open>Connect\<close> has
  been called for \<open>c1..cN\<close> on a new signal, \<open>Emit\<close> calls the handlers of \<open>c1..cN\<close> in this
  order, once each.
\<close>

theorem dispatch_order:
  "Signal_Emit this args s =
     (map (\<lambda>c. (m_pobject c, m_pmemfun c, args)) (m_connected_slots s this), s) \<and>
   m_connected_slots (Signal_Connect this pclass pmemfun s) this =
     m_connected_slots s this @ [\<lparr>m_pobject = pclass, m_pmemfun = pmemfun\<rparr>] \<and>
   fst (Signal_Emit this args (Connect_all this ps empty_heap)) =
     map (\<lambda>(r, h). (r, h, args)) ps"
  by (simp add: Signal_Emit_def Emit_loop_map slots_Connect slots_Connect_all empty_heap_def
      case_prod_beta)

section \<open>Selective and exhaustive disconnection\<close>

lemma Disconnect_loop_first:
  "\<exists>c \<in> set cs. GetDest c = pslot \<Longrightarrow>
   \<exists>pre c post. cs = pre @ c # post \<and> GetDest c = pslot \<and>
     (\<forall>x \<in> set pre. GetDest x \<noteq> pslot) \<and> Disconnect_loop pslot cs = (pre @ post, True)"
proof (induction cs)
  case Nil
  then show ?case by simp
next
  case (Cons a cs)
  show ?case
  proof (cases "GetDest a = pslot")
    case True
    then have "a # cs = [] @ a # cs \<and> GetDest a = pslot \<and>
        (\<forall>x \<in> set []. GetDest x \<noteq> pslot) \<and>
        Disconnect_loop pslot (a # cs) = ([] @ cs, True)"
      by simp
    then show ?thesis by blast
  next
    case False
    with Cons.prems have "\<exists>c \<in> set cs. GetDest c = pslot" by auto
    from Cons.IH [OF this] obtain pre c post where
      h: "cs = pre @ c # post" "GetDest c = pslot" "\<forall>x \<in> set pre. GetDest x \<noteq> pslot"
        "Disconnect_loop pslot cs = (pre @ post, True)"
      by blast
    with False have "a # cs = (a # pre) @ c # post \<and> GetDest c = pslot \<and>
        (\<forall>x \<in> set (a # pre). GetDest x \<noteq> pslot) \<and>
        Disconnect_loop pslot (a # cs) = ((a # pre) @ post, True)"
      by simp
    then show ?thesis by blast
  qed
qed

text \<open>
  C4. When the list of the signal holds \<open>k \<ge> 1\<close> records whose target is \<open>R\<close>, \<open>Disconnect(R)\<close>
  removes the first of them in list order and nothing else: the list was \<open>pre @ c # post\<close>
  with \<open>c\<close> the first record for \<open>R\<close>, and it becomes \<open>pre @ post\<close>, so \<open>k - 1\<close> records for \<open>R\<close>
  remain. \<open>SlotDisconnect(R)\<close> leaves the records of the other receivers, in their order, and
  none for \<open>R\<close>.
\<close>

theorem Disconnect_first_SlotDisconnect_all:
  assumes "1 \<le> length (filter (\<lambda>c. GetDest c = R) (m_connected_slots s E))"
  shows "(\<exists>pre c post. m_connected_slots s E = pre @ c # post \<and> GetDest c = R \<and>
            (\<forall>x \<in> set pre. GetDest x \<noteq> R) \<and>
            m_connected_slots (Signal_Disconnect E R s) E = pre @ post) \<and>
         length (filter (\<lambda>c. GetDest c = R) (m_connected_slots (Signal_Disconnect E R s) E)) =
           length (filter (\<lambda>c. GetDest c = R) (m_connected_slots s E)) - 1 \<and>
         m_connected_slots (Signal_SlotDisconnect E R s) E =
           filter (\<lambda>c. GetDest c \<noteq> R) (m_connected_slots s E)"
proof -
  from assms have "filter (\<lambda>c. GetDest c = R) (m_connected_slots s E) \<noteq> []" by auto
  then have "\<exists>c \<in> set (m_connected_slots s E). GetDest c = R"
    by (simp add: filter_empty_conv)
  from Disconnect_loop_first [OF this] obtain pre c post where
    h: "m_connected_slots s E = pre @ c # post" "GetDest c = R"
      "\<forall>x \<in> set pre. GetDest x \<noteq> R"
      "Disconnect_loop R (m_connected_slots s E) = (pre @ post, True)"
    by blast
  have d: "m_connected_slots (Signal_Disconnect E R s) E = pre @ post"
    using h(4) by (simp add: Signal_Disconnect_def Connectable_SignalDisconnect_def)
  have "filter (\<lambda>c. GetDest c = R) pre = []"
    using h(3) by (simp add: filter_empty_conv)
  then have "length (filter (\<lambda>c. GetDest c = R) (pre @ post)) =
      length (filter (\<lambda>c. GetDest c = R) (pre @ c # post)) - 1"
    using h(2) by simp
  with h d show ?thesis
    by (auto simp add: Signal_SlotDisconnect_def SlotDisconnect_loop_filter)
qed

theorem Disconnect_first_SlotDisconnect_all_witness:
  "1 \<le> length (filter (\<lambda>c. GetDest c = 2) (m_connected_slots heap_mixed 10)) \<and>
   m_connected_slots (Signal_Disconnect 10 2 heap_mixed) 10 =
     [\<lparr>m_pobject = 3, m_pmemfun = 9\<rparr>, \<lparr>m_pobject = 2, m_pmemfun = 8\<rparr>] \<and>
   length (filter (\<lambda>c. GetDest c = 2) (m_connected_slots (Signal_Disconnect 10 2 heap_mixed) 10)) =
     length (filter (\<lambda>c. GetDest c = 2) (m_connected_slots heap_mixed 10)) - 1 \<and>
   m_connected_slots (Signal_SlotDisconnect 10 2 heap_mixed) 10 = [\<lparr>m_pobject = 3, m_pmemfun = 9\<rparr>]"
proof -
  have h: "1 \<le> length (filter (\<lambda>c. GetDest c = 2) (m_connected_slots heap_mixed 10))"
    by (simp add: heap_mixed_eq GetDest_def)
  have d: "m_connected_slots (Signal_Disconnect 10 2 heap_mixed) 10 =
      [\<lparr>m_pobject = 3, m_pmemfun = 9\<rparr>, \<lparr>m_pobject = 2, m_pmemfun = 8\<rparr>]"
    by (simp add: heap_mixed_eq Signal_Disconnect_def Connectable_SignalDisconnect_def GetDest_def)
  from Disconnect_first_SlotDisconnect_all [OF h] h d show ?thesis
    by (simp add: heap_mixed_eq GetDest_def)
qed

section \<open>What \<open>SlotDisconnect\<close> writes\<close>

text \<open>
  C10. \<open>SlotDisconnect(R)\<close> on signal \<open>E\<close> writes the list of \<open>E\<close> only: the senders of every
  receiver and the lists of the other signals are what they were. So after a direct call
  \<open>E\<close> holds no record for \<open>R\<close>, and when \<open>E\<close> was among the senders of \<open>R\<close> it still is.
\<close>

theorem SlotDisconnect_frame:
  "m_senders (Signal_SlotDisconnect E R s) = m_senders s \<and>
   (\<forall>e. e \<noteq> E \<longrightarrow> m_connected_slots (Signal_SlotDisconnect E R s) e = m_connected_slots s e) \<and>
   (\<forall>c \<in> set (m_connected_slots (Signal_SlotDisconnect E R s) E). GetDest c \<noteq> R) \<and>
   (E \<in> set (m_senders s R) \<longrightarrow> E \<in> set (m_senders (Signal_SlotDisconnect E R s) R))"
  by (simp add: Signal_SlotDisconnect_def SlotDisconnect_loop_filter)

theorem SlotDisconnect_frame_witness:
  "10 \<in> set (m_senders heap_mixed 2) \<and>
   10 \<in> set (m_senders (Signal_SlotDisconnect 10 2 heap_mixed) 2) \<and>
   m_connected_slots (Signal_SlotDisconnect 10 2 heap_mixed) 10 = [\<lparr>m_pobject = 3, m_pmemfun = 9\<rparr>] \<and>
   (5::nat) \<noteq> 10 \<and>
   m_connected_slots (Signal_SlotDisconnect 10 2 heap_mixed) 5 = m_connected_slots heap_mixed 5"
  using SlotDisconnect_frame [of 10 2 heap_mixed]
  by (simp add: heap_mixed_eq Signal_SlotDisconnect_def GetDest_def)

section \<open>Duplication of records\<close>

lemma SlotDuplicate_loop_distinct:
  assumes "oldtarget \<noteq> newtarget"
  shows "SlotDuplicate_loop oldtarget newtarget visited rest =
    Some (visited @ rest @
      map (\<lambda>c. Duplicate c newtarget) (filter (\<lambda>c. GetDest c = oldtarget) rest))"
proof (induction "length rest + length (filter (\<lambda>c. GetDest c = oldtarget) rest)"
    arbitrary: visited rest rule: less_induct)
  case less
  show ?case
  proof (cases rest)
    case Nil
    then show ?thesis by (subst SlotDuplicate_loop.simps) simp
  next
    case (Cons c cs)
    show ?thesis
    proof (cases "GetDest c = oldtarget")
      case True
      have d: "GetDest (Duplicate c newtarget) \<noteq> oldtarget"
        using assms by (simp add: GetDest_def Duplicate_def)
      have "length (cs @ [Duplicate c newtarget]) +
          length (filter (\<lambda>c. GetDest c = oldtarget) (cs @ [Duplicate c newtarget]))
        < length rest + length (filter (\<lambda>c. GetDest c = oldtarget) rest)"
        using Cons True d by simp
      from less [OF this, of "visited @ [c]"] Cons True d show ?thesis
        by (subst SlotDuplicate_loop.simps) simp
    next
      case False
      have "length cs + length (filter (\<lambda>c. GetDest c = oldtarget) cs)
        < length rest + length (filter (\<lambda>c. GetDest c = oldtarget) rest)"
        using Cons by simp
      from less [OF this, of "visited @ [c]"] Cons False show ?thesis
        by (subst SlotDuplicate_loop.simps) simp
    qed
  qed
qed

lemma SlotDuplicate_loop_same:
  assumes "SlotDuplicate_loop oldtarget newtarget visited rest = Some cs"
  shows "oldtarget = newtarget \<longrightarrow> (\<forall>c \<in> set rest. GetDest c \<noteq> oldtarget)"
proof (rule SlotDuplicate_loop.raw_induct
    [where P = "\<lambda>old new vis rst y. old = new \<longrightarrow> (\<forall>c \<in> set rst. GetDest c \<noteq> old)",
     OF _ assms])
  fix f old new vis rst y
  assume IH: "\<And>old new vis rst y. f old new vis rst = Some y \<Longrightarrow>
      old = new \<longrightarrow> (\<forall>c \<in> set rst. GetDest c \<noteq> old)"
    and step: "(if rst = [] then Some vis
      else if GetDest (hd rst) \<noteq> old then f old new (vis @ [hd rst]) (tl rst)
      else f old new (vis @ [hd rst]) (tl rst @ [Duplicate (hd rst) new])) = Some y"
  show "old = new \<longrightarrow> (\<forall>c \<in> set rst. GetDest c \<noteq> old)"
  proof (cases rst)
    case Nil
    then show ?thesis by simp
  next
    case (Cons c rst')
    show ?thesis
    proof (cases "GetDest c = old")
      case True
      with step Cons have "f old new (vis @ [c]) (rst' @ [Duplicate c new]) = Some y"
        by simp
      from IH [OF this] show ?thesis
        by (auto simp add: GetDest_def Duplicate_def)
    next
      case False
      with step Cons have "f old new (vis @ [c]) rst' = Some y"
        by simp
      from IH [OF this] Cons False show ?thesis by auto
    qed
  qed
qed

lemma SlotDuplicate_loop_diverges:
  "\<exists>c \<in> set rest. GetDest c = target \<Longrightarrow>
   SlotDuplicate_loop target target visited rest = None"
  using SlotDuplicate_loop_same [of target target visited rest]
  by (cases "SlotDuplicate_loop target target visited rest") auto

lemma Signal_SlotDuplicate_distinct:
  "oldtarget \<noteq> newtarget \<Longrightarrow>
   Signal_SlotDuplicate this oldtarget newtarget s =
     Some (set_slots this
       (m_connected_slots s this @
        map (\<lambda>c. Duplicate c newtarget)
          (filter (\<lambda>c. GetDest c = oldtarget) (m_connected_slots s this))) s)"
  by (simp add: Signal_SlotDuplicate_def SlotDuplicate_loop_distinct)

text \<open>
  C5, as stated, at \<open>newReceiver = oldReceiver\<close>: signal 10 holds one record for receiver 2,
  and \<open>SlotDuplicate(2, 2)\<close> does not return. Every record it appends is a record for the old
  target, which the loop reaches and duplicates in turn.
\<close>

theorem SlotDuplicate_same_receiver_counterexample:
  "Signal_SlotDuplicate 10 2 2 heap_click = None"
  by (simp add: Signal_SlotDuplicate_def SlotDuplicate_loop_diverges heap_click_eq GetDest_def)

text \<open>
  C5, amended. When \<open>newReceiver\<close> is another receiver than \<open>oldReceiver\<close>,
  \<open>SlotDuplicate(oldReceiver, newReceiver)\<close> returns, and the list of the signal is the list
  it held followed by one new record per record whose target is \<open>oldReceiver\<close>, in their
  order; the new record has \<open>newReceiver\<close> as target and the handler of the original.
  Nothing else is written.
\<close>

theorem SlotDuplicate_other_receiver:
  "oldR \<noteq> newR \<Longrightarrow>
   Signal_SlotDuplicate E oldR newR s =
     Some (set_slots E
       (m_connected_slots s E @
        map (\<lambda>c. \<lparr>m_pobject = newR, m_pmemfun = m_pmemfun c\<rparr>)
          (filter (\<lambda>c. m_pobject c = oldR) (m_connected_slots s E))) s)"
  by (simp add: Signal_SlotDuplicate_def SlotDuplicate_loop_distinct Duplicate_def GetDest_def)

theorem SlotDuplicate_other_receiver_witness:
  "(2::nat) \<noteq> 4 \<and>
   Signal_SlotDuplicate 10 2 4 heap_mixed =
     Some (set_slots 10
       [\<lparr>m_pobject = 2, m_pmemfun = 7\<rparr>, \<lparr>m_pobject = 3, m_pmemfun = 9\<rparr>,
        \<lparr>m_pobject = 2, m_pmemfun = 8\<rparr>, \<lparr>m_pobject = 4, m_pmemfun = 7\<rparr>,
        \<lparr>m_pobject = 4, m_pmemfun = 8\<rparr>] heap_mixed)"
proof -
  have h: "(2::nat) \<noteq> 4" by simp
  from SlotDuplicate_other_receiver [OF h, of 10 heap_mixed] show ?thesis
    by (simp add: heap_mixed_eq)
qed

section \<open>The senders as a set\<close>

lemma set_set_insert [simp]: "set (set_insert x xs) = insert x (set xs)"
  by (induction xs) auto

lemma set_set_erase [simp]: "set (set_erase x xs) = set xs - {x}"
  by (induction xs) auto

lemma std_set_insert: "std_set xs \<Longrightarrow> std_set (set_insert x xs)"
  unfolding std_set_def by (induction xs) auto

lemma std_set_erase: "std_set xs \<Longrightarrow> std_set (set_erase x xs)"
  unfolding std_set_def by (induction xs) auto

lemma set_insert_member: "std_set xs \<Longrightarrow> x \<in> set xs \<Longrightarrow> set_insert x xs = xs"
  unfolding std_set_def by (induction xs) auto

lemma std_set_distinct: "std_set xs \<Longrightarrow> distinct xs"
  unfolding std_set_def by (simp add: strict_sorted_iff)

lemma distinct_count_list: "distinct xs \<Longrightarrow> count_list xs x \<le> 1"
  by (induction xs) (auto simp add: count_list_0_iff)

lemma std_set_Nil [simp]: "std_set []"
  by (simp add: std_set_def)

lemma wf_empty_heap: "senders_wf empty_heap"
  by (simp add: senders_wf_def empty_heap_def)

lemma wf_set_slots [simp]: "senders_wf (set_slots this cs s) = senders_wf s"
  by (simp add: senders_wf_def)

lemma wf_SignalConnect: "senders_wf s \<Longrightarrow> senders_wf (Connectable_SignalConnect this sender s)"
  by (simp add: senders_wf_def Connectable_SignalConnect_def std_set_insert)

lemma wf_SignalDisconnect: "senders_wf s \<Longrightarrow> senders_wf (Connectable_SignalDisconnect this sender s)"
  by (simp add: senders_wf_def Connectable_SignalDisconnect_def std_set_erase)

lemma wf_clear: "senders_wf s \<Longrightarrow> senders_wf (set_senders this [] s)"
  by (simp add: senders_wf_def)

lemma wf_Connect: "senders_wf s \<Longrightarrow> senders_wf (Signal_Connect this pclass pmemfun s)"
  by (simp add: Signal_Connect_def wf_SignalConnect)

lemma wf_Disconnect: "senders_wf s \<Longrightarrow> senders_wf (Signal_Disconnect this pslot s)"
  by (simp add: Signal_Disconnect_def wf_SignalDisconnect split: prod.split)

lemma wf_SlotDisconnect: "senders_wf s \<Longrightarrow> senders_wf (Signal_SlotDisconnect this pslot s)"
  by (simp add: Signal_SlotDisconnect_def)

lemma wf_SlotDuplicate:
  "senders_wf s \<Longrightarrow> Signal_SlotDuplicate this oldtarget newtarget s = Some s' \<Longrightarrow> senders_wf s'"
  by (auto simp add: Signal_SlotDuplicate_def split: option.splits)

lemma wf_Signal_DisconnectAll_loop:
  "senders_wf s \<Longrightarrow> senders_wf (Signal_DisconnectAll_loop this cs s)"
  by (induction cs arbitrary: s) (simp_all add: wf_SignalDisconnect)

lemma wf_Signal_DisconnectAll: "senders_wf s \<Longrightarrow> senders_wf (Signal_DisconnectAll this s)"
  by (simp add: Signal_DisconnectAll_def wf_Signal_DisconnectAll_loop)

lemma wf_Signal_copy_loop: "senders_wf s \<Longrightarrow> senders_wf (Signal_copy_loop this cs s)"
  by (induction cs arbitrary: s) (simp_all add: wf_SignalConnect Let_def)

lemma wf_Signal_copy: "senders_wf s \<Longrightarrow> senders_wf (Signal_copy this src s)"
  by (simp add: Signal_copy_def wf_Signal_copy_loop)

lemma wf_Connectable_DisconnectAll_loop:
  "senders_wf s \<Longrightarrow> senders_wf (Connectable_DisconnectAll_loop this xs s)"
  by (induction xs arbitrary: s) (simp_all add: wf_SlotDisconnect)

lemma wf_Connectable_DisconnectAll: "senders_wf s \<Longrightarrow> senders_wf (Connectable_DisconnectAll this s)"
  by (simp add: Connectable_DisconnectAll_def wf_Connectable_DisconnectAll_loop wf_clear)

lemma wf_Connectable_copy_loop:
  "senders_wf s \<Longrightarrow> Connectable_copy_loop this src xs s = Some s' \<Longrightarrow> senders_wf s'"
proof (induction xs arbitrary: s)
  case Nil
  then show ?case by simp
next
  case (Cons sender rest)
  from Cons.prems(2) obtain s1 where
    s1: "Signal_SlotDuplicate sender src this s = Some s1"
    and r: "Connectable_copy_loop this src rest (Connectable_SignalConnect this sender s1) = Some s'"
    by (auto split: option.splits)
  from Cons.prems(1) s1 have "senders_wf s1" by (rule wf_SlotDuplicate)
  then have "senders_wf (Connectable_SignalConnect this sender s1)" by (rule wf_SignalConnect)
  from Cons.IH [OF this r] show ?case .
qed

lemma wf_Connectable_copy:
  "senders_wf s \<Longrightarrow> Connectable_copy this src s = Some s' \<Longrightarrow> senders_wf s'"
  unfolding Connectable_copy_def using wf_Connectable_copy_loop wf_clear by blast

lemma wf_perform: "senders_wf s \<Longrightarrow> perform op s = Some s' \<Longrightarrow> senders_wf s'"
proof (cases op)
  case (SlotDuplicate x1 x2 x3)
  then show "senders_wf s \<Longrightarrow> perform op s = Some s' \<Longrightarrow> senders_wf s'"
    using wf_SlotDuplicate by simp
next
  case (ConnectableCopy x1 x2)
  then show "senders_wf s \<Longrightarrow> perform op s = Some s' \<Longrightarrow> senders_wf s'"
    using wf_Connectable_copy by simp
qed (auto simp add: wf_Connect wf_Disconnect wf_SlotDisconnect wf_Signal_DisconnectAll
    wf_Signal_copy wf_SignalConnect wf_SignalDisconnect wf_Connectable_DisconnectAll
    Signal_destroy_def Connectable_destroy_def Signal_Emit_def)

lemma wf_run: "senders_wf s \<Longrightarrow> run ops s = Some s' \<Longrightarrow> senders_wf s'"
proof (induction ops arbitrary: s)
  case Nil
  then show ?case by simp
next
  case (Cons op ops)
  from Cons.prems(2) obtain s1 where p: "perform op s = Some s1" and r: "run ops s1 = Some s'"
    by (auto split: option.splits)
  from wf_perform [OF Cons.prems(1) p] Cons.IH r show ?case by blast
qed

text \<open>
  C8. \<open>SignalConnect(E)\<close> on a receiver whose senders hold \<open>E\<close> returns the state it was
  given, and it keeps the senders a set. In every state that a sequence of public
  operations reaches from the state without connections, the senders of every receiver
  are a set in which no signal occurs twice, whatever the number of records the signals
  hold for the receiver.
\<close>

theorem SignalConnect_idempotent_senders_unique:
  "(std_set (m_senders s R) \<and> E \<in> set (m_senders s R) \<longrightarrow> Connectable_SignalConnect R E s = s) \<and>
   (std_set (m_senders s R) \<longrightarrow> std_set (m_senders (Connectable_SignalConnect R E s) R)) \<and>
   (run ops empty_heap = Some s' \<longrightarrow>
      std_set (m_senders s' R) \<and> distinct (m_senders s' R) \<and> count_list (m_senders s' R) E \<le> 1)"
proof -
  have a: "std_set (m_senders s R) \<and> E \<in> set (m_senders s R) \<longrightarrow> Connectable_SignalConnect R E s = s"
    by (simp add: Connectable_SignalConnect_def set_insert_member set_senders_def)
  have b: "std_set (m_senders s R) \<longrightarrow> std_set (m_senders (Connectable_SignalConnect R E s) R)"
    by (simp add: Connectable_SignalConnect_def std_set_insert)
  have c: "run ops empty_heap = Some s' \<longrightarrow>
      std_set (m_senders s' R) \<and> distinct (m_senders s' R) \<and> count_list (m_senders s' R) E \<le> 1"
  proof
    assume "run ops empty_heap = Some s'"
    with wf_empty_heap have "senders_wf s'" by (rule wf_run)
    then have "std_set (m_senders s' R)" by (simp add: senders_wf_def)
    then show "std_set (m_senders s' R) \<and> distinct (m_senders s' R) \<and> count_list (m_senders s' R) E \<le> 1"
      using std_set_distinct [of "m_senders s' R"] distinct_count_list [of "m_senders s' R" E]
      by simp
  qed
  from a b c show ?thesis by blast
qed

theorem SignalConnect_idempotent_senders_unique_witness:
  "std_set (m_senders heap_twice 2) \<and> 10 \<in> set (m_senders heap_twice 2) \<and>
   Connectable_SignalConnect 2 10 heap_twice = heap_twice \<and>
   run [Connect 10 2 7, Connect 10 2 8] empty_heap = Some heap_twice \<and>
   length (filter (\<lambda>c. GetDest c = 2) (m_connected_slots heap_twice 10)) = 2 \<and>
   distinct (m_senders heap_twice 2) \<and>
   count_list (m_senders heap_twice 2) 10 \<le> 1"
proof -
  have r: "run [Connect 10 2 7, Connect 10 2 8] empty_heap = Some heap_twice"
    by (simp add: heap_twice_def)
  have h: "std_set (m_senders heap_twice 2) \<and> 10 \<in> set (m_senders heap_twice 2)"
    by (simp add: heap_twice_eq std_set_def)
  have k: "length (filter (\<lambda>c. GetDest c = 2) (m_connected_slots heap_twice 10)) = 2"
    by (simp add: heap_twice_eq GetDest_def)
  from SignalConnect_idempotent_senders_unique
    [of heap_twice 2 10 "[Connect 10 2 7, Connect 10 2 8]" heap_twice] r h k
  show ?thesis by simp
qed

section \<open>Destruction\<close>

lemma set_insert_idem: "set_insert x (set_insert x xs) = set_insert x xs"
  by (induction xs) auto

lemma set_erase_idem: "set_erase x (set_erase x xs) = set_erase x xs"
  by (induction xs) auto

lemma SlotDisconnect_loop_idem:
  "SlotDisconnect_loop R (SlotDisconnect_loop R cs) = SlotDisconnect_loop R cs"
  by (simp add: SlotDisconnect_loop_filter)

lemma set_slots_commute:
  "a \<noteq> b \<Longrightarrow> set_slots a x (set_slots b y s) = set_slots b y (set_slots a x s)"
  by (simp add: set_slots_def fun_upd_twist)

lemma set_senders_set_slots:
  "set_senders r xs (set_slots e cs s) = set_slots e cs (set_senders r xs s)"
  by (simp add: set_slots_def set_senders_def)

subsection \<open>\<open>Connectable::DisconnectAll\<close>\<close>

lemma senders_Connectable_DisconnectAll_loop [simp]:
  "m_senders (Connectable_DisconnectAll_loop R xs s) = m_senders s"
  by (induction xs arbitrary: s) (simp_all add: Signal_SlotDisconnect_def)

lemma slots_Connectable_DisconnectAll_loop:
  "m_connected_slots (Connectable_DisconnectAll_loop R xs s) e =
     (if e \<in> set xs then SlotDisconnect_loop R (m_connected_slots s e) else m_connected_slots s e)"
  by (induction xs arbitrary: s) (auto simp add: Signal_SlotDisconnect_def SlotDisconnect_loop_idem)

lemma slots_Connectable_DisconnectAll:
  "m_connected_slots (Connectable_DisconnectAll R s) e =
     (if e \<in> set (m_senders s R) then filter (\<lambda>c. GetDest c \<noteq> R) (m_connected_slots s e)
      else m_connected_slots s e)"
  by (simp add: Connectable_DisconnectAll_def slots_Connectable_DisconnectAll_loop
      SlotDisconnect_loop_filter)

lemma senders_Connectable_DisconnectAll:
  "m_senders (Connectable_DisconnectAll R s) r = (if r = R then [] else m_senders s r)"
  by (simp add: Connectable_DisconnectAll_def)

lemma Connectable_DisconnectAll_loop_skips:
  "E \<notin> set xs \<Longrightarrow>
   Connectable_DisconnectAll_loop R xs (set_slots E cs s) =
     set_slots E cs (Connectable_DisconnectAll_loop R xs s)"
proof (induction xs arbitrary: s)
  case Nil
  then show ?case by simp
next
  case (Cons x xs)
  then have ne: "x \<noteq> E" and nin: "E \<notin> set xs" by auto
  have "Signal_SlotDisconnect x R (set_slots E cs s) = set_slots E cs (Signal_SlotDisconnect x R s)"
    using ne by (simp add: Signal_SlotDisconnect_def set_slots_commute)
  with Cons.IH [OF nin] show ?case by simp
qed

lemma Connectable_DisconnectAll_skips:
  "E \<notin> set (m_senders s R) \<Longrightarrow>
   Connectable_DisconnectAll R (set_slots E cs s) = set_slots E cs (Connectable_DisconnectAll R s)"
  by (simp add: Connectable_DisconnectAll_def Connectable_DisconnectAll_loop_skips
      set_senders_set_slots)

subsection \<open>\<open>Signal::DisconnectAll\<close>\<close>

lemma slots_Signal_DisconnectAll_loop [simp]:
  "m_connected_slots (Signal_DisconnectAll_loop E cs s) = m_connected_slots s"
  by (induction cs arbitrary: s) (simp_all add: Connectable_SignalDisconnect_def)

lemma senders_Signal_DisconnectAll_loop:
  "m_senders (Signal_DisconnectAll_loop E cs s) r =
     (if r \<in> GetDest ` set cs then set_erase E (m_senders s r) else m_senders s r)"
  by (induction cs arbitrary: s) (auto simp add: Connectable_SignalDisconnect_def set_erase_idem)

lemma slots_Signal_DisconnectAll:
  "m_connected_slots (Signal_DisconnectAll E s) e = (if e = E then [] else m_connected_slots s e)"
  by (simp add: Signal_DisconnectAll_def)

lemma senders_Signal_DisconnectAll:
  "m_senders (Signal_DisconnectAll E s) r =
     (if r \<in> GetDest ` set (m_connected_slots s E) then set_erase E (m_senders s r)
      else m_senders s r)"
  by (simp add: Signal_DisconnectAll_def senders_Signal_DisconnectAll_loop)

text \<open>
  Destruction when both ends agree. Let signal \<open>E\<close> hold a record for receiver \<open>R\<close> and be
  among the senders of \<open>R\<close>. After \<open>R\<close> is destroyed, \<open>E\<close> holds no record whose target is
  \<open>R\<close>, and \<open>Emit\<close> on \<open>E\<close> makes no call to \<open>R\<close>. After \<open>E\<close> is destroyed instead, \<open>E\<close> is
  not among the senders of \<open>R\<close>; destroying \<open>R\<close> then neither reads nor writes the memory
  of \<open>E\<close>.
\<close>

lemma destruction_safety_connected:
  assumes "connected s E R"
  shows "filter (\<lambda>c. GetDest c = R) (m_connected_slots (Connectable_destroy R s) E) = [] \<and>
         (\<forall>i \<in> set (fst (Signal_Emit E args (Connectable_destroy R s))). fst i \<noteq> R) \<and>
         E \<notin> set (m_senders (Signal_destroy E s) R) \<and>
         (\<forall>cs. Connectable_destroy R (set_slots E cs (Signal_destroy E s)) =
               set_slots E cs (Connectable_destroy R (Signal_destroy E s)))"
proof -
  from assms have rec: "R \<in> GetDest ` set (m_connected_slots s E)"
    and reg: "E \<in> set (m_senders s R)"
    by (auto simp add: connected_def)
  have a: "filter (\<lambda>c. GetDest c = R) (m_connected_slots (Connectable_destroy R s) E) = []"
    using reg by (simp add: Connectable_destroy_def slots_Connectable_DisconnectAll filter_empty_conv)
  then have b: "\<forall>i \<in> set (fst (Signal_Emit E args (Connectable_destroy R s))). fst i \<noteq> R"
    by (auto simp add: Signal_Emit_def Emit_loop_map filter_empty_conv GetDest_def)
  have c: "E \<notin> set (m_senders (Signal_destroy E s) R)"
    using rec by (simp add: Signal_destroy_def senders_Signal_DisconnectAll)
  then have "\<forall>cs. Connectable_destroy R (set_slots E cs (Signal_destroy E s)) =
      set_slots E cs (Connectable_destroy R (Signal_destroy E s))"
    by (simp add: Connectable_destroy_def Connectable_DisconnectAll_skips)
  with a b c show ?thesis by blast
qed

lemma Connect_connected: "connected (Signal_Connect E R h s) E R"
  by (simp add: connected_def slots_Connect senders_Connect GetDest_def)

lemma destruction_safety_connected_example:
  "connected heap_mixed 10 2 \<and>
   filter (\<lambda>c. GetDest c = 2) (m_connected_slots (Connectable_destroy 2 heap_mixed) 10) = [] \<and>
   m_connected_slots (Connectable_destroy 2 heap_mixed) 10 = [\<lparr>m_pobject = 3, m_pmemfun = 9\<rparr>] \<and>
   fst (Signal_Emit 10 () (Connectable_destroy 2 heap_mixed)) = [(3, 9, ())] \<and>
   10 \<notin> set (m_senders (Signal_destroy 10 heap_mixed) 2) \<and>
   Connectable_destroy 2 (set_slots 10 [\<lparr>m_pobject = 2, m_pmemfun = 7\<rparr>] (Signal_destroy 10 heap_mixed)) =
     set_slots 10 [\<lparr>m_pobject = 2, m_pmemfun = 7\<rparr>]
       (Connectable_destroy 2 (Signal_destroy 10 heap_mixed))"
proof -
  have h: "connected heap_mixed 10 2"
    using Connect_connected [of 10 2 8 "Connect_all 10 [(2, 7), (3, 9)] empty_heap"]
    by (simp add: heap_mixed_def)
  have d: "m_connected_slots (Connectable_destroy 2 heap_mixed) 10 = [\<lparr>m_pobject = 3, m_pmemfun = 9\<rparr>]"
    by (simp add: Connectable_destroy_def slots_Connectable_DisconnectAll heap_mixed_eq GetDest_def)
  have e: "fst (Signal_Emit 10 () (Connectable_destroy 2 heap_mixed)) = [(3, 9, ())]"
    by (simp add: Signal_Emit_def Emit_loop_map d)
  from destruction_safety_connected [OF h, of "()"] h d e show ?thesis by simp
qed

section \<open>Copying a signal\<close>

lemma slots_Signal_copy_loop:
  "m_connected_slots (Signal_copy_loop this cs s) e =
     (if e = this then m_connected_slots s this @ cs else m_connected_slots s e)"
  by (induction cs arbitrary: s) (simp_all add: Let_def Connectable_SignalConnect_def Clone_def)

lemma senders_Signal_copy_loop:
  "m_senders (Signal_copy_loop this cs s) r =
     (if r \<in> GetDest ` set cs then set_insert this (m_senders s r) else m_senders s r)"
  by (induction cs arbitrary: s)
    (auto simp add: Let_def Connectable_SignalConnect_def set_insert_idem)

lemma slots_Signal_copy:
  "m_connected_slots (Signal_copy this src s) e =
     (if e = this then m_connected_slots s src else m_connected_slots s e)"
  by (simp add: Signal_copy_def slots_Signal_copy_loop)

lemma senders_Signal_copy:
  "m_senders (Signal_copy this src s) r =
     (if r \<in> GetDest ` set (m_connected_slots s src) then set_insert this (m_senders s r)
      else m_senders s r)"
  by (simp add: Signal_copy_def senders_Signal_copy_loop)

text \<open>
  C7. Copy construction of signal \<open>E\<close> into a new signal \<open>E2\<close>: the list of \<open>E2\<close> is the list
  of \<open>E\<close>, record by record; every receiver that a record of \<open>E\<close> targets has \<open>E2\<close> among its
  senders, and its senders are otherwise what they were; the lists of the other signals,
  that of \<open>E\<close> among them, are what they were. \<open>Emit\<close> on \<open>E\<close> and on \<open>E2\<close> make the same
  calls, one per record of \<open>E\<close>. Destroying \<open>E\<close> afterwards leaves the list of \<open>E2\<close> and the
  membership of \<open>E2\<close> in every set of senders.
\<close>

theorem emitter_copy:
  assumes "E2 \<noteq> E"
  shows "m_connected_slots (Signal_copy E2 E s) E2 = m_connected_slots s E \<and>
    (\<forall>e. e \<noteq> E2 \<longrightarrow> m_connected_slots (Signal_copy E2 E s) e = m_connected_slots s e) \<and>
    (\<forall>r. m_senders (Signal_copy E2 E s) r =
       (if r \<in> GetDest ` set (m_connected_slots s E) then set_insert E2 (m_senders s r)
        else m_senders s r)) \<and>
    (\<forall>c \<in> set (m_connected_slots s E). E2 \<in> set (m_senders (Signal_copy E2 E s) (GetDest c))) \<and>
    (\<forall>r e. e \<noteq> E2 \<longrightarrow>
       (e \<in> set (m_senders (Signal_copy E2 E s) r)) = (e \<in> set (m_senders s r))) \<and>
    fst (Signal_Emit E args (Signal_copy E2 E s)) =
      map (\<lambda>c. (m_pobject c, m_pmemfun c, args)) (m_connected_slots s E) \<and>
    fst (Signal_Emit E2 args (Signal_copy E2 E s)) =
      map (\<lambda>c. (m_pobject c, m_pmemfun c, args)) (m_connected_slots s E) \<and>
    m_connected_slots (Signal_destroy E (Signal_copy E2 E s)) E2 = m_connected_slots s E \<and>
    (\<forall>r. (E2 \<in> set (m_senders (Signal_destroy E (Signal_copy E2 E s)) r)) =
          (E2 \<in> set (m_senders (Signal_copy E2 E s) r)))"
  using assms
  by (auto simp add: slots_Signal_copy senders_Signal_copy Signal_Emit_def Emit_loop_map
      Signal_destroy_def slots_Signal_DisconnectAll senders_Signal_DisconnectAll)

theorem emitter_copy_witness:
  "(6::nat) \<noteq> 10 \<and>
   m_connected_slots (Signal_copy 6 10 heap_mixed) 6 =
     [\<lparr>m_pobject = 2, m_pmemfun = 7\<rparr>, \<lparr>m_pobject = 3, m_pmemfun = 9\<rparr>,
      \<lparr>m_pobject = 2, m_pmemfun = 8\<rparr>] \<and>
   m_connected_slots (Signal_copy 6 10 heap_mixed) 10 = m_connected_slots heap_mixed 10 \<and>
   m_senders (Signal_copy 6 10 heap_mixed) 2 = [6, 10] \<and>
   m_senders (Signal_copy 6 10 heap_mixed) 3 = [6, 10] \<and>
   fst (Signal_Emit 6 () (Signal_copy 6 10 heap_mixed)) = [(2, 7, ()), (3, 9, ()), (2, 8, ())] \<and>
   fst (Signal_Emit 10 () (Signal_copy 6 10 heap_mixed)) = [(2, 7, ()), (3, 9, ()), (2, 8, ())] \<and>
   m_connected_slots (Signal_destroy 10 (Signal_copy 6 10 heap_mixed)) 6 =
     m_connected_slots heap_mixed 10 \<and>
   6 \<in> set (m_senders (Signal_destroy 10 (Signal_copy 6 10 heap_mixed)) 2) \<and>
   6 \<in> set (m_senders (Signal_destroy 10 (Signal_copy 6 10 heap_mixed)) 3)"
proof -
  have h: "(6::nat) \<noteq> 10" by simp
  from emitter_copy [OF h, of heap_mixed "()"] show ?thesis
    by (simp add: heap_mixed_eq GetDest_def)
qed

section \<open>Copying a receiver\<close>

lemma set_insert_greatest: "\<forall>a \<in> set acc. a < x \<Longrightarrow> set_insert x acc = acc @ [x]"
  by (induction acc) auto

lemma fold_set_insert_ascending:
  "sorted_wrt (<) (acc @ xs) \<Longrightarrow> fold set_insert xs acc = acc @ xs"
proof (induction xs arbitrary: acc)
  case Nil
  then show ?case by simp
next
  case (Cons x xs)
  from Cons.prems have lt: "\<forall>a \<in> set acc. a < x"
    by (simp add: sorted_wrt_append)
  from Cons.prems have "sorted_wrt (<) ((acc @ [x]) @ xs)" by simp
  from Cons.IH [OF this] lt show ?case by (simp add: set_insert_greatest)
qed

lemma Connectable_copy_loop_result:
  assumes "this \<noteq> src" and "distinct xs"
  shows "\<exists>s'. Connectable_copy_loop this src xs s = Some s' \<and>
    (\<forall>e. m_connected_slots s' e =
       (if e \<in> set xs
        then m_connected_slots s e @
          map (\<lambda>c. Duplicate c this) (filter (\<lambda>c. GetDest c = src) (m_connected_slots s e))
        else m_connected_slots s e)) \<and>
    (\<forall>r. m_senders s' r =
       (if r = this then fold set_insert xs (m_senders s this) else m_senders s r))"
  using assms(2)
proof (induction xs arbitrary: s)
  case Nil
  then show ?case by simp
next
  case (Cons x xs)
  define s1 where "s1 = set_slots x (m_connected_slots s x @
    map (\<lambda>c. Duplicate c this) (filter (\<lambda>c. GetDest c = src) (m_connected_slots s x))) s"
  define s2 where "s2 = Connectable_SignalConnect this x s1"
  from assms(1) have dup: "Signal_SlotDuplicate x src this s = Some s1"
    unfolding s1_def by (simp add: Signal_SlotDuplicate_distinct)
  from Cons.prems have nin: "x \<notin> set xs" and d: "distinct xs" by auto
  from Cons.IH [OF d, of s2] obtain s' where
    run: "Connectable_copy_loop this src xs s2 = Some s'"
    and sl: "\<forall>e. m_connected_slots s' e =
       (if e \<in> set xs
        then m_connected_slots s2 e @
          map (\<lambda>c. Duplicate c this) (filter (\<lambda>c. GetDest c = src) (m_connected_slots s2 e))
        else m_connected_slots s2 e)"
    and se: "\<forall>r. m_senders s' r =
       (if r = this then fold set_insert xs (m_senders s2 this) else m_senders s2 r)"
    by blast
  have sl2: "\<And>e. m_connected_slots s2 e = (if e = x then m_connected_slots s x @
      map (\<lambda>c. Duplicate c this) (filter (\<lambda>c. GetDest c = src) (m_connected_slots s x))
      else m_connected_slots s e)"
    by (simp add: s2_def s1_def Connectable_SignalConnect_def)
  have se2: "\<And>r. m_senders s2 r = (if r = this then set_insert x (m_senders s this) else m_senders s r)"
    by (simp add: s2_def s1_def Connectable_SignalConnect_def)
  have "Connectable_copy_loop this src (x # xs) s = Some s'"
    using dup run by (simp add: s2_def)
  moreover have "\<forall>e. m_connected_slots s' e =
       (if e \<in> set (x # xs)
        then m_connected_slots s e @
          map (\<lambda>c. Duplicate c this) (filter (\<lambda>c. GetDest c = src) (m_connected_slots s e))
        else m_connected_slots s e)"
    using sl sl2 nin by auto
  moreover have "\<forall>r. m_senders s' r =
       (if r = this then fold set_insert (x # xs) (m_senders s this) else m_senders s r)"
    using se se2 by simp
  ultimately show ?case by blast
qed

lemma Connectable_copy_result:
  assumes "this \<noteq> src" and "std_set (m_senders s src)"
  shows "\<exists>s'. Connectable_copy this src s = Some s' \<and>
    (\<forall>e. m_connected_slots s' e =
       (if e \<in> set (m_senders s src)
        then m_connected_slots s e @
          map (\<lambda>c. Duplicate c this) (filter (\<lambda>c. GetDest c = src) (m_connected_slots s e))
        else m_connected_slots s e)) \<and>
    (\<forall>r. m_senders s' r = (if r = this then m_senders s src else m_senders s r))"
proof -
  from assms(2) have d: "distinct (m_senders s src)" by (rule std_set_distinct)
  from assms(2) have f: "fold set_insert (m_senders s src) [] = m_senders s src"
    using fold_set_insert_ascending [of "[]" "m_senders s src"] by (simp add: std_set_def)
  from Connectable_copy_loop_result [OF assms(1) d, of "set_senders this [] s"] obtain s' where
    run: "Connectable_copy_loop this src (m_senders s src) (set_senders this [] s) = Some s'"
    and sl: "\<forall>e. m_connected_slots s' e =
       (if e \<in> set (m_senders s src)
        then m_connected_slots (set_senders this [] s) e @
          map (\<lambda>c. Duplicate c this)
            (filter (\<lambda>c. GetDest c = src) (m_connected_slots (set_senders this [] s) e))
        else m_connected_slots (set_senders this [] s) e)"
    and se: "\<forall>r. m_senders s' r =
       (if r = this then fold set_insert (m_senders s src) (m_senders (set_senders this [] s) this)
        else m_senders (set_senders this [] s) r)"
    by blast
  have "Connectable_copy this src s = Some s'"
    using run by (simp add: Connectable_copy_def)
  moreover have "\<forall>e. m_connected_slots s' e =
       (if e \<in> set (m_senders s src)
        then m_connected_slots s e @
          map (\<lambda>c. Duplicate c this) (filter (\<lambda>c. GetDest c = src) (m_connected_slots s e))
        else m_connected_slots s e)"
    using sl by simp
  moreover have "\<forall>r. m_senders s' r = (if r = this then m_senders s src else m_senders s r)"
    using se f by simp
  ultimately show ?thesis by blast
qed

text \<open>
  C6. Copy construction of receiver \<open>R\<close> into a new receiver \<open>R2\<close> returns, and then: every
  sender \<open>E\<close> of \<open>R\<close> holds its former list followed by one record for \<open>R2\<close> per record it
  holds for \<open>R\<close>, with the same handler, and the lists of the other signals are what they
  were; the senders of \<open>R2\<close> are those of \<open>R\<close>, and the senders of every other receiver,
  \<open>R\<close> among them, are what they were; the records for \<open>R\<close> are the same in every list. So
  \<open>Emit\<close> on a sender of \<open>R\<close> calls, for each of its records for \<open>R\<close>, the handler on \<open>R\<close>
  and the handler on \<open>R2\<close>. Destroying \<open>R\<close> afterwards leaves the senders of \<open>R2\<close> and, in
  every list, the records for \<open>R2\<close>.
\<close>

theorem receiver_copy:
  assumes "R2 \<noteq> R" and "std_set (m_senders s R)"
  shows "\<exists>s'. Connectable_copy R2 R s = Some s' \<and>
    (\<forall>E. m_connected_slots s' E =
       (if E \<in> set (m_senders s R)
        then m_connected_slots s E @
          map (\<lambda>c. \<lparr>m_pobject = R2, m_pmemfun = m_pmemfun c\<rparr>)
            (filter (\<lambda>c. m_pobject c = R) (m_connected_slots s E))
        else m_connected_slots s E)) \<and>
    (\<forall>r. m_senders s' r = (if r = R2 then m_senders s R else m_senders s r)) \<and>
    (\<forall>E. filter (\<lambda>c. m_pobject c = R) (m_connected_slots s' E) =
          filter (\<lambda>c. m_pobject c = R) (m_connected_slots s E)) \<and>
    (\<forall>E \<in> set (m_senders s R). \<forall>c \<in> set (m_connected_slots s E). m_pobject c = R \<longrightarrow>
       (R, m_pmemfun c, args) \<in> set (fst (Signal_Emit E args s')) \<and>
       (R2, m_pmemfun c, args) \<in> set (fst (Signal_Emit E args s'))) \<and>
    m_senders (Connectable_destroy R s') R2 = m_senders s' R2 \<and>
    (\<forall>E. filter (\<lambda>c. m_pobject c = R2) (m_connected_slots (Connectable_destroy R s') E) =
          filter (\<lambda>c. m_pobject c = R2) (m_connected_slots s' E))"
proof -
  from Connectable_copy_result [OF assms, of ] obtain s' where
    run: "Connectable_copy R2 R s = Some s'"
    and sl: "\<And>E. m_connected_slots s' E =
       (if E \<in> set (m_senders s R)
        then m_connected_slots s E @
          map (\<lambda>c. \<lparr>m_pobject = R2, m_pmemfun = m_pmemfun c\<rparr>)
            (filter (\<lambda>c. m_pobject c = R) (m_connected_slots s E))
        else m_connected_slots s E)"
    and se: "\<And>r. m_senders s' r = (if r = R2 then m_senders s R else m_senders s r)"
    by (auto simp add: Duplicate_def GetDest_def)
  have keep: "\<forall>E. filter (\<lambda>c. m_pobject c = R) (m_connected_slots s' E) =
          filter (\<lambda>c. m_pobject c = R) (m_connected_slots s E)"
    using assms(1) by (simp add: sl filter_map comp_def)
  have emit: "\<forall>E \<in> set (m_senders s R). \<forall>c \<in> set (m_connected_slots s E). m_pobject c = R \<longrightarrow>
       (R, m_pmemfun c, args) \<in> set (fst (Signal_Emit E args s')) \<and>
       (R2, m_pmemfun c, args) \<in> set (fst (Signal_Emit E args s'))"
    by (auto simp add: Signal_Emit_def Emit_loop_map sl image_iff intro: bexI)
  have d1: "m_senders (Connectable_destroy R s') R2 = m_senders s' R2"
    using assms(1) by (simp add: Connectable_destroy_def senders_Connectable_DisconnectAll)
  have d2: "\<forall>E. filter (\<lambda>c. m_pobject c = R2) (m_connected_slots (Connectable_destroy R s') E) =
          filter (\<lambda>c. m_pobject c = R2) (m_connected_slots s' E)"
    using assms(1)
    by (auto simp add: Connectable_destroy_def slots_Connectable_DisconnectAll GetDest_def
        intro: filter_cong)
  from run sl se keep emit d1 d2 show ?thesis by blast
qed

theorem receiver_copy_witness:
  "(4::nat) \<noteq> 2 \<and> std_set (m_senders heap_mixed 2) \<and>
   (\<exists>s'. Connectable_copy 4 2 heap_mixed = Some s' \<and>
      m_connected_slots s' 10 =
        [\<lparr>m_pobject = 2, m_pmemfun = 7\<rparr>, \<lparr>m_pobject = 3, m_pmemfun = 9\<rparr>,
         \<lparr>m_pobject = 2, m_pmemfun = 8\<rparr>, \<lparr>m_pobject = 4, m_pmemfun = 7\<rparr>,
         \<lparr>m_pobject = 4, m_pmemfun = 8\<rparr>] \<and>
      m_senders s' 4 = [10] \<and> m_senders s' 2 = [10] \<and>
      (2, 7, ()) \<in> set (fst (Signal_Emit 10 () s')) \<and>
      (4, 7, ()) \<in> set (fst (Signal_Emit 10 () s')) \<and>
      m_senders (Connectable_destroy 2 s') 4 = [10] \<and>
      filter (\<lambda>c. m_pobject c = 4) (m_connected_slots (Connectable_destroy 2 s') 10) =
        [\<lparr>m_pobject = 4, m_pmemfun = 7\<rparr>, \<lparr>m_pobject = 4, m_pmemfun = 8\<rparr>])"
proof -
  have h1: "(4::nat) \<noteq> 2" by simp
  have h2: "std_set (m_senders heap_mixed 2)"
    by (simp add: heap_mixed_eq std_set_def)
  from receiver_copy [OF h1 h2, of "()"] obtain s' where
    run: "Connectable_copy 4 2 heap_mixed = Some s'"
    and sl: "\<forall>E. m_connected_slots s' E =
       (if E \<in> set (m_senders heap_mixed 2)
        then m_connected_slots heap_mixed E @
          map (\<lambda>c. \<lparr>m_pobject = 4, m_pmemfun = m_pmemfun c\<rparr>)
            (filter (\<lambda>c. m_pobject c = 2) (m_connected_slots heap_mixed E))
        else m_connected_slots heap_mixed E)"
    and se: "\<forall>r. m_senders s' r = (if r = 4 then m_senders heap_mixed 2 else m_senders heap_mixed r)"
    and em: "\<forall>E \<in> set (m_senders heap_mixed 2). \<forall>c \<in> set (m_connected_slots heap_mixed E).
       m_pobject c = 2 \<longrightarrow>
       (2, m_pmemfun c, ()) \<in> set (fst (Signal_Emit E () s')) \<and>
       (4, m_pmemfun c, ()) \<in> set (fst (Signal_Emit E () s'))"
    and d1: "m_senders (Connectable_destroy 2 s') 4 = m_senders s' 4"
    and d2: "\<forall>E. filter (\<lambda>c. m_pobject c = 4) (m_connected_slots (Connectable_destroy 2 s') E) =
          filter (\<lambda>c. m_pobject c = 4) (m_connected_slots s' E)"
    by blast
  have a: "m_connected_slots s' 10 =
        [\<lparr>m_pobject = 2, m_pmemfun = 7\<rparr>, \<lparr>m_pobject = 3, m_pmemfun = 9\<rparr>,
         \<lparr>m_pobject = 2, m_pmemfun = 8\<rparr>, \<lparr>m_pobject = 4, m_pmemfun = 7\<rparr>,
         \<lparr>m_pobject = 4, m_pmemfun = 8\<rparr>]"
    using sl by (simp add: heap_mixed_eq)
  have b: "m_senders s' 4 = [10] \<and> m_senders s' 2 = [10]"
    using se by (simp add: heap_mixed_eq)
  have c: "(2, 7, ()) \<in> set (fst (Signal_Emit 10 () s')) \<and> (4, 7, ()) \<in> set (fst (Signal_Emit 10 () s'))"
    using em by (simp add: heap_mixed_eq)
  have d: "filter (\<lambda>c. m_pobject c = 4) (m_connected_slots (Connectable_destroy 2 s') 10) =
        [\<lparr>m_pobject = 4, m_pmemfun = 7\<rparr>, \<lparr>m_pobject = 4, m_pmemfun = 8\<rparr>]"
    using d2 a by simp
  from h1 h2 run a b c d d1 show ?thesis by simp
qed

section \<open>\<open>Disconnect\<close> with several records for one receiver\<close>

text \<open>
  Whenever the signal holds two or more records for \<open>R\<close>, \<open>Disconnect(R)\<close> leaves a record for
  \<open>R\<close> in the list and takes the signal out of the senders of \<open>R\<close>.
\<close>

lemma Disconnect_duplicate_records:
  assumes "2 \<le> length (filter (\<lambda>c. GetDest c = R) (m_connected_slots s E))"
  shows "(\<exists>c \<in> set (m_connected_slots (Signal_Disconnect E R s) E). GetDest c = R) \<and>
         E \<notin> set (m_senders (Signal_Disconnect E R s) R)"
proof -
  from assms have "filter (\<lambda>c. GetDest c = R) (m_connected_slots s E) \<noteq> []" by auto
  then have "\<exists>c \<in> set (m_connected_slots s E). GetDest c = R"
    by (simp add: filter_empty_conv)
  from Disconnect_loop_first [OF this] obtain pre c post where
    h: "m_connected_slots s E = pre @ c # post" "GetDest c = R"
      "\<forall>x \<in> set pre. GetDest x \<noteq> R"
      "Disconnect_loop R (m_connected_slots s E) = (pre @ post, True)"
    by blast
  have "filter (\<lambda>c. GetDest c = R) pre = []"
    using h(3) by (simp add: filter_empty_conv)
  with assms h(1) h(2) have "filter (\<lambda>c. GetDest c = R) post \<noteq> []" by auto
  then have left: "\<exists>c \<in> set post. GetDest c = R"
    by (simp add: filter_empty_conv)
  have sl: "m_connected_slots (Signal_Disconnect E R s) E = pre @ post"
    using h(4) by (simp add: Signal_Disconnect_def Connectable_SignalDisconnect_def)
  have se: "m_senders (Signal_Disconnect E R s) R = set_erase E (m_senders s R)"
    using h(4) by (simp add: Signal_Disconnect_def Connectable_SignalDisconnect_def)
  from left sl se show ?thesis by auto
qed

text \<open>
  C1 at signal 10 holding two records for receiver 2 (handlers 7 and 8). Before the call the
  two are connected. \<open>Disconnect(2)\<close> erases the first record and calls \<open>SignalDisconnect\<close>
  on receiver 2 although the second record is still in the list: signal 10 holds a record
  for receiver 2, and receiver 2 does not have signal 10 among its senders. Receiver 2
  destroyed in this state has no sender to tell, so the record stays, and \<open>Emit\<close> on
  signal 10 calls handler 8 on the destroyed receiver.
\<close>

theorem Disconnect_drops_sender_of_remaining_record:
  "connected heap_twice 10 2 \<and>
   m_connected_slots (Signal_Disconnect 10 2 heap_twice) 10 = [\<lparr>m_pobject = 2, m_pmemfun = 8\<rparr>] \<and>
   m_senders (Signal_Disconnect 10 2 heap_twice) 2 = [] \<and>
   \<not> connected (Signal_Disconnect 10 2 heap_twice) 10 2 \<and>
   m_connected_slots (Connectable_destroy 2 (Signal_Disconnect 10 2 heap_twice)) 10 =
     [\<lparr>m_pobject = 2, m_pmemfun = 8\<rparr>] \<and>
   fst (Signal_Emit 10 () (Connectable_destroy 2 (Signal_Disconnect 10 2 heap_twice))) = [(2, 8, ())]"
proof -
  have a: "m_connected_slots (Signal_Disconnect 10 2 heap_twice) 10 = [\<lparr>m_pobject = 2, m_pmemfun = 8\<rparr>]"
    by (simp add: heap_twice_eq Signal_Disconnect_def Connectable_SignalDisconnect_def GetDest_def)
  have b: "m_senders (Signal_Disconnect 10 2 heap_twice) 2 = []"
    by (simp add: heap_twice_eq Signal_Disconnect_def Connectable_SignalDisconnect_def GetDest_def)
  have c: "m_connected_slots (Connectable_destroy 2 (Signal_Disconnect 10 2 heap_twice)) 10 =
     [\<lparr>m_pobject = 2, m_pmemfun = 8\<rparr>]"
    by (simp add: Connectable_destroy_def slots_Connectable_DisconnectAll a b)
  have d: "connected heap_twice 10 2"
    by (simp add: connected_def heap_twice_eq GetDest_def)
  from a b c d show ?thesis
    by (simp add: connected_def Signal_Emit_def Emit_loop_map)
qed

section \<open>Destruction of a receiver after \<open>Disconnect\<close>\<close>

lemma heap_disconnected_once_eq:
  "heap_disconnected_once =
     \<lparr>m_connected_slots = (\<lambda>_. [])(10 := [\<lparr>m_pobject = 2, m_pmemfun = 8\<rparr>]),
      m_senders = (\<lambda>_. [])(2 := [])\<rparr>"
  by (simp add: heap_disconnected_once_def heap_twice_eq Signal_Disconnect_def
      Connectable_SignalDisconnect_def GetDest_def set_slots_def set_senders_def)

text \<open>
  C2 at signal 10 and receiver 2 after \<open>Connect(2, 7)\<close>, \<open>Connect(2, 8)\<close>, \<open>Disconnect(2)\<close>.
  The signal holds the record for handler 8 of receiver 2, and \<open>Emit\<close> calls it: the signal
  is connected to the receiver. The senders of receiver 2 are empty, so its destruction
  calls \<open>SlotDisconnect\<close> on no signal: afterwards signal 10 holds one record whose target
  is the destroyed receiver, not zero, and \<open>Emit\<close> calls handler 8 on it. In the other
  direction the code does what the claim says: after signal 10 is destroyed it is not
  among the senders of receiver 2.
\<close>

theorem destroyed_receiver_still_called:
  "run [Connect 10 2 7, Connect 10 2 8, Disconnect 10 2] empty_heap =
     Some heap_disconnected_once \<and>
   m_connected_slots heap_disconnected_once 10 = [\<lparr>m_pobject = 2, m_pmemfun = 8\<rparr>] \<and>
   fst (Signal_Emit 10 () heap_disconnected_once) = [(2, 8, ())] \<and>
   m_senders heap_disconnected_once 2 = [] \<and>
   length (filter (\<lambda>c. GetDest c = 2)
     (m_connected_slots (Connectable_destroy 2 heap_disconnected_once) 10)) = 1 \<and>
   fst (Signal_Emit 10 () (Connectable_destroy 2 heap_disconnected_once)) = [(2, 8, ())] \<and>
   10 \<notin> set (m_senders (Signal_destroy 10 heap_disconnected_once) 2)"
proof -
  have r: "run [Connect 10 2 7, Connect 10 2 8, Disconnect 10 2] empty_heap =
      Some heap_disconnected_once"
    by (simp add: heap_disconnected_once_def heap_twice_def)
  have a: "m_connected_slots heap_disconnected_once 10 = [\<lparr>m_pobject = 2, m_pmemfun = 8\<rparr>]"
    by (simp add: heap_disconnected_once_eq)
  have b: "m_senders heap_disconnected_once 2 = []"
    by (simp add: heap_disconnected_once_eq)
  have c: "m_connected_slots (Connectable_destroy 2 heap_disconnected_once) 10 =
      [\<lparr>m_pobject = 2, m_pmemfun = 8\<rparr>]"
    by (simp add: Connectable_destroy_def slots_Connectable_DisconnectAll a b)
  have d: "10 \<notin> set (m_senders (Signal_destroy 10 heap_disconnected_once) 2)"
    by (simp add: Signal_destroy_def senders_Signal_DisconnectAll b)
  from r a b c d show ?thesis
    by (simp add: Signal_Emit_def Emit_loop_map GetDest_def)
qed

end
